theory Spec2Isabelle
  imports Main
begin

section \<open>Exceptions\<close>

text \<open>
  The exceptions the module can raise, as values. An exception object carries the
  positional arguments it was built with; only \<open>AssertionError\<close> is raised by the
  module itself, the others come from indexing, arithmetic and the tensor library.
  The type parameter is the type of the arguments an \<open>AssertionError\<close> carries.
\<close>

datatype 'a error =
    AssertionError "'a list"
  | IndexError
  | ZeroDivisionError
  | RuntimeError
  | AttributeError
  | TypeError

section \<open>Padding of the leading dimension\<close>

text \<open>
  \<open>_get_dim0_padded_size(tensor_size, dim0_factor)\<close>. A \<open>torch.Size\<close> is a tuple of
  Python integers. \<open>tensor_size[0]\<close> raises \<open>IndexError\<close> on the empty size, and
  \<open>%\<close> raises \<open>ZeroDivisionError\<close> when the factor is zero; Python's \<open>%\<close> is the
  floor modulus, which is \<open>mod\<close> on \<open>int\<close>. \<open>tensor_size[1:]\<close> is the tail.
\<close>

fun get_dim0_padded_size :: "int list \<Rightarrow> int \<Rightarrow> 'e error + int list" where
  "get_dim0_padded_size [] dim0_factor = Inl IndexError"
| "get_dim0_padded_size (d0 # rest) dim0_factor =
     (if d0 < dim0_factor then Inr ([dim0_factor] @ rest)
      else if dim0_factor = 0 then Inl ZeroDivisionError
      else if d0 mod dim0_factor \<noteq> 0
        then Inr ([d0 + dim0_factor - (d0 mod dim0_factor)] @ rest)
      else Inr (d0 # rest))"

section \<open>Device mesh and process groups\<close>

text \<open>
  Modelled from the spec: \<open>DeviceMesh\<close> and \<open>ProcessGroup\<close> (the spec's MeshTopology
  and communication sub-group) are classes of \<open>torch.distributed\<close> and are not under
  \<open>src/\<close>. The spec describes the mesh as a multi-dimensional array of process ranks
  that exposes, per dimension, the size and the sub-group of ranks along that
  dimension, every rank belonging to exactly one sub-group per dimension; a group's
  \<open>rank()\<close> is the position of the current process within the group.

  The mesh is the shape of the array, the global ranks in row-major order, and the
  global rank of the calling process. A dimension index outside \<open>0 \<le> d < ndim\<close>
  raises \<open>IndexError\<close>; a process that is not in the mesh has no sub-group.
\<close>

record ProcessGroup =
  pg_ranks :: "nat list"
  pg_self :: nat

record DeviceMesh =
  mesh_shape :: "nat list"
  mesh_ranks :: "nat list"
  mesh_self :: nat

fun index_of :: "'a \<Rightarrow> 'a list \<Rightarrow> nat option" where
  "index_of x [] = None"
| "index_of x (y # ys) = (if x = y then Some 0 else map_option Suc (index_of x ys))"

fun unravel :: "nat list \<Rightarrow> nat \<Rightarrow> nat list" where
  "unravel [] p = []"
| "unravel (n # ns) p = (p div prod_list ns) # unravel ns (p mod prod_list ns)"

fun ravel :: "nat list \<Rightarrow> nat list \<Rightarrow> nat" where
  "ravel (n # ns) (i # is) = i * prod_list ns + ravel ns is"
| "ravel ns is = 0"

text \<open>
  Modelled from the spec: \<open>ProcessGroup.rank()\<close> (not under \<open>src/\<close>), the position of
  the current process within the group, and \<open>-1\<close> for a process outside it.
\<close>

definition rank :: "ProcessGroup \<Rightarrow> int" where
  "rank g = (case index_of (pg_self g) (pg_ranks g) of None \<Rightarrow> - 1 | Some i \<Rightarrow> int i)"

text \<open>
  The coordinates of the calling process in the array: its position among the
  ranks, unravelled by the shape.
\<close>

definition coordinate :: "DeviceMesh \<Rightarrow> nat list option" where
  "coordinate m = map_option (unravel (mesh_shape m)) (index_of (mesh_self m) (mesh_ranks m))"

text \<open>
  Modelled from the spec: \<open>DeviceMesh.size(d)\<close> (not under \<open>src/\<close>), the size of
  dimension \<open>d\<close>.
\<close>

definition mesh_size :: "DeviceMesh \<Rightarrow> int \<Rightarrow> 'e error + int" where
  "mesh_size m d =
     (if 0 \<le> d \<and> d < int (length (mesh_shape m)) then Inr (int (mesh_shape m ! nat d))
      else Inl IndexError)"

text \<open>
  Modelled from the spec: \<open>DeviceMesh.get_group(d)\<close> (not under \<open>src/\<close>), the
  sub-group of the ranks along dimension \<open>d\<close> that the calling process belongs to:
  the ranks whose coordinates differ from its own in dimension \<open>d\<close> only, in the
  order of that coordinate.
\<close>

definition get_group :: "DeviceMesh \<Rightarrow> int \<Rightarrow> 'e error + ProcessGroup" where
  "get_group m d =
     (if 0 \<le> d \<and> d < int (length (mesh_shape m)) then
        (case coordinate m of
           None \<Rightarrow> Inl RuntimeError
         | Some c \<Rightarrow>
             Inr \<lparr>pg_ranks = map (\<lambda>i. mesh_ranks m ! ravel (mesh_shape m) (c[nat d := i]))
                                 [0 ..< mesh_shape m ! nat d],
                  pg_self = mesh_self m\<rparr>)
      else Inl IndexError)"

section \<open>Mesh-info classes\<close>

text \<open>
  The four dataclasses. An instance holds the three dataclass fields and the
  attributes that the \<open>__post_init__\<close> methods assign; an attribute that was never
  assigned is \<open>None\<close> here, and reading it raises \<open>AttributeError\<close>.
\<close>

datatype cls = DataParallelMeshInfo | FSDPMeshInfo | DDPMeshInfo | HSDPMeshInfo

record MeshInfo =
  mesh :: DeviceMesh
  shard_mesh_dim :: "int option"
  replicate_mesh_dim :: "int option"
  shard_mesh_size :: "int option"
  shard_process_group :: "ProcessGroup option"
  shard_mesh_rank :: "int option"
  replicate_mesh_size :: "int option"
  replicate_process_group :: "ProcessGroup option"
  replicate_mesh_rank :: "int option"

definition read_attr :: "'a option \<Rightarrow> 'e error + 'a" where
  "read_attr a = (case a of None \<Rightarrow> Inl AttributeError | Some v \<Rightarrow> Inr v)"

text \<open>
  The base classes as the \<open>class\<close> statements list them, and the method resolution
  order Python computes from them (\<open>object\<close>, which has no \<open>__post_init__\<close>, is left
  out). \<open>c3_merge\<close> is the C3 linearisation that defines the order; it is stated
  beside the table so that the table can be checked against it.
\<close>

fun bases :: "cls \<Rightarrow> cls list" where
  "bases DataParallelMeshInfo = []"
| "bases FSDPMeshInfo = [DataParallelMeshInfo]"
| "bases DDPMeshInfo = [DataParallelMeshInfo]"
| "bases HSDPMeshInfo = [FSDPMeshInfo, DDPMeshInfo]"

fun mro :: "cls \<Rightarrow> cls list" where
  "mro DataParallelMeshInfo = [DataParallelMeshInfo]"
| "mro FSDPMeshInfo = [FSDPMeshInfo, DataParallelMeshInfo]"
| "mro DDPMeshInfo = [DDPMeshInfo, DataParallelMeshInfo]"
| "mro HSDPMeshInfo = [HSDPMeshInfo, FSDPMeshInfo, DDPMeshInfo, DataParallelMeshInfo]"

fun c3_merge :: "nat \<Rightarrow> cls list list \<Rightarrow> cls list option" where
  "c3_merge 0 seqs = (if filter (\<lambda>s. s \<noteq> []) seqs = [] then Some [] else None)"
| "c3_merge (Suc n) seqs =
     (let live = filter (\<lambda>s. s \<noteq> []) seqs in
      if live = [] then Some []
      else case find (\<lambda>h. list_all (\<lambda>s. h \<notin> set (tl s)) live) (map hd live) of
             None \<Rightarrow> None
           | Some h \<Rightarrow>
               map_option ((#) h)
                 (c3_merge n (map (\<lambda>s. if hd s = h then tl s else s) live)))"

text \<open>
  \<open>super(C, self).__post_init__\<close> for an instance whose type is \<open>T\<close>: the lookup
  starts at the class that FOLLOWS \<open>C\<close> in the method resolution order of \<open>T\<close>. All
  four classes define \<open>__post_init__\<close>, so the lookup ends at that class; after the
  last class only \<open>object\<close> is left, which has no such method. \<open>super(C, self)\<close> itself
  raises \<open>TypeError\<close> when \<open>self\<close> is not an instance of \<open>C\<close>. The zero-argument
  \<open>super()\<close> inside a method of class \<open>C\<close> is \<open>super(C, self)\<close>.
\<close>

definition super_post_init :: "cls \<Rightarrow> cls \<Rightarrow> 'e error + cls" where
  "super_post_init C T =
     (case dropWhile (\<lambda>X. X \<noteq> C) (mro T) of
        [] \<Rightarrow> Inl TypeError
      | [X] \<Rightarrow> Inl AttributeError
      | X # C' # rest \<Rightarrow> Inr C')"

fun depth :: "cls \<Rightarrow> nat" where
  "depth DataParallelMeshInfo = 0"
| "depth DDPMeshInfo = 1"
| "depth FSDPMeshInfo = 2"
| "depth HSDPMeshInfo = 3"

text \<open>
  \<open>post_init C T self\<close> runs the body of \<open>C.__post_init__\<close> on an instance \<open>self\<close> of
  type \<open>T\<close> and returns the instance with the attributes it assigned, or the
  exception it raised.
\<close>

function post_init :: "cls \<Rightarrow> cls \<Rightarrow> MeshInfo \<Rightarrow> string error + MeshInfo" where
  "post_init DataParallelMeshInfo T self =
     (if shard_mesh_dim self = None \<and> replicate_mesh_dim self = None
      then Inl (AssertionError
             [''At least one of shard_mesh_dim and replicate_mesh_dim must not be None''])
      else Inr self)"
| "post_init FSDPMeshInfo T self =
     (case super_post_init FSDPMeshInfo T of Inl e \<Rightarrow> Inl e | Inr C \<Rightarrow>
      (case post_init C T self of Inl e \<Rightarrow> Inl e | Inr self1 \<Rightarrow>
      (case shard_mesh_dim self1 of
         None \<Rightarrow> Inl (AssertionError [''Expects non-None shard_mesh_dim''])
       | Some d \<Rightarrow>
      (case mesh_size (mesh self1) d of Inl e \<Rightarrow> Inl e | Inr sz \<Rightarrow>
      (case get_group (mesh self1) d of Inl e \<Rightarrow> Inl e | Inr g \<Rightarrow>
         Inr (self1\<lparr>shard_mesh_size := Some sz,
                    shard_process_group := Some g,
                    shard_mesh_rank := Some (rank g)\<rparr>))))))"
| "post_init DDPMeshInfo T self =
     (case super_post_init DDPMeshInfo T of Inl e \<Rightarrow> Inl e | Inr C \<Rightarrow>
      (case post_init C T self of Inl e \<Rightarrow> Inl e | Inr self1 \<Rightarrow>
      (case replicate_mesh_dim self1 of
         None \<Rightarrow> Inl (AssertionError [''Expects non-None replicate_mesh_dim''])
       | Some d \<Rightarrow>
      (case mesh_size (mesh self1) d of Inl e \<Rightarrow> Inl e | Inr sz \<Rightarrow>
      (case get_group (mesh self1) d of Inl e \<Rightarrow> Inl e | Inr g \<Rightarrow>
         Inr (self1\<lparr>replicate_mesh_size := Some sz,
                    replicate_process_group := Some g,
                    replicate_mesh_rank := Some (rank g)\<rparr>))))))"
| "post_init HSDPMeshInfo T self =
     (case super_post_init FSDPMeshInfo T of Inl e \<Rightarrow> Inl e | Inr C \<Rightarrow>
      (case post_init C T self of Inl e \<Rightarrow> Inl e | Inr self1 \<Rightarrow>
      (case super_post_init DDPMeshInfo T of Inl e \<Rightarrow> Inl e | Inr C' \<Rightarrow>
         post_init C' T self1)))"
  by pat_completeness auto
termination
proof (relation "measure (\<lambda>(C, T, self). depth C)")
  show "wf (measure (\<lambda>(C, T, self). depth C))" by simp
next
  fix T :: cls and self :: MeshInfo and C :: cls
  assume "(super_post_init FSDPMeshInfo T :: string error + cls) = Inr C"
  then show "((C, T, self), FSDPMeshInfo, T, self) \<in> measure (\<lambda>(C, T, self). depth C)"
    by (cases T) (auto simp: super_post_init_def)
next
  fix T :: cls and self :: MeshInfo and C :: cls
  assume "(super_post_init DDPMeshInfo T :: string error + cls) = Inr C"
  then show "((C, T, self), DDPMeshInfo, T, self) \<in> measure (\<lambda>(C, T, self). depth C)"
    by (cases T) (auto simp: super_post_init_def)
next
  fix T :: cls and self :: MeshInfo and C :: cls
  assume "(super_post_init FSDPMeshInfo T :: string error + cls) = Inr C"
  then show "((C, T, self), HSDPMeshInfo, T, self) \<in> measure (\<lambda>(C, T, self). depth C)"
    by (cases T) (auto simp: super_post_init_def)
next
  fix T :: cls and self self1 :: MeshInfo and C C' :: cls
  assume "(super_post_init DDPMeshInfo T :: string error + cls) = Inr C'"
  then show "((C', T, self1), HSDPMeshInfo, T, self) \<in> measure (\<lambda>(C, T, self). depth C)"
    by (cases T) (auto simp: super_post_init_def)
qed

text \<open>
  The \<open>__init__\<close> that \<open>@dataclass\<close> generates stores the three fields (the two
  dimensions default to \<open>None\<close>) and calls \<open>self.__post_init__()\<close>, which resolves
  to the method of the instance's own class.
\<close>

definition init :: "cls \<Rightarrow> DeviceMesh \<Rightarrow> int option \<Rightarrow> int option \<Rightarrow> string error + MeshInfo" where
  "init T m s r =
     post_init T T
       \<lparr>mesh = m, shard_mesh_dim = s, replicate_mesh_dim = r,
        shard_mesh_size = None, shard_process_group = None, shard_mesh_rank = None,
        replicate_mesh_size = None, replicate_process_group = None,
        replicate_mesh_rank = None\<rparr>"

text \<open>
  The spec's scenario: ranks \<open>0..5\<close> on a \<open>2 \<times> 3\<close> grid, seen from rank \<open>4\<close>, whose
  coordinates are \<open>(1, 1)\<close>.
\<close>

definition mesh_2x3 :: DeviceMesh where
  "mesh_2x3 = \<lparr>mesh_shape = [2, 3], mesh_ranks = [0, 1, 2, 3, 4, 5], mesh_self = 4\<rparr>"

section \<open>Composability check\<close>

text \<open>
  \<open>_get_registry\<close> (\<open>torch.distributed._composable.contract\<close>) is not under \<open>src/\<close>;
  it hands back the registry stored on the module, a dict keyed by the names of the
  composable APIs already applied to it, or \<open>None\<close> when the module has none. The
  registry is taken as a field of the module. \<open>"replicate" not in registry\<close> tests
  the keys of the dict.
\<close>

record 'v Module =
  registry_attr :: "(string \<rightharpoonup> 'v) option"

definition get_registry :: "'v Module \<Rightarrow> (string \<rightharpoonup> 'v) option" where
  "get_registry module = registry_attr module"

definition is_composable_with_fsdp :: "'v Module \<Rightarrow> bool" where
  "is_composable_with_fsdp module =
     (case get_registry module of
        None \<Rightarrow> True
      | Some registry \<Rightarrow> ''replicate'' \<notin> dom registry)"

section \<open>Assertion failure with diagnostics\<close>

text \<open>
  Output goes to text streams: the two standard streams and any other writable
  file object, told apart by a number. The state of the output is the text written
  to each stream so far.
\<close>

datatype stream = Stdout | Stderr | Other_file nat

record io =
  stdout :: string
  stderr :: string
  files :: "nat \<Rightarrow> string"

definition file_write :: "stream \<Rightarrow> string \<Rightarrow> io \<Rightarrow> io" where
  "file_write f s out =
     (case f of
        Stdout \<Rightarrow> out\<lparr>stdout := stdout out @ s\<rparr>
      | Stderr \<Rightarrow> out\<lparr>stderr := stderr out @ s\<rparr>
      | Other_file n \<Rightarrow> out\<lparr>files := (files out)(n := files out n @ s)\<rparr>)"

fun join :: "string \<Rightarrow> string list \<Rightarrow> string" where
  "join sep [] = []"
| "join sep [x] = x"
| "join sep (x # y # ys) = x @ sep @ join sep (y # ys)"

fun digits :: "nat \<Rightarrow> string" where
  "digits n =
     (if n < 10 then [''0123456789'' ! n]
      else digits (n div 10) @ [''0123456789'' ! (n mod 10)])"

definition str_int :: "int \<Rightarrow> string" where
  "str_int i = (if i < 0 then CHR ''-'' # digits (nat (- i)) else digits (nat i))"

text \<open>
  The value of a keyword argument, as far as \<open>print\<close> tells values apart: \<open>None\<close>, a
  string, a writable stream, or any other object (one that is neither \<open>None\<close> nor a
  string and has no \<open>write\<close> method). \<open>**kwargs\<close> is the list of the keywords with
  their values, in call order.
\<close>

datatype 'a kwval = KwNone | KwStr string | KwFile stream | KwOther 'a

text \<open>
  The built-in \<open>print(*objects, sep=' ', end='\n', file=None, flush=False)\<close>.
  A keyword it does not know raises \<open>TypeError\<close>; so does a \<open>sep\<close> or an \<open>end\<close> that
  is neither \<open>None\<close> nor a string. \<open>file=None\<close> is standard output; an object without
  a \<open>write\<close> method raises \<open>AttributeError\<close> at the first write. The objects are
  written one after the other, \<open>sep\<close> between them, each rendered by \<open>str()\<close> when
  its turn comes: an object whose \<open>str()\<close> raises stops the output there. \<open>end\<close>
  is written last. \<open>flush\<close> changes no text. The objects are given by the
  outcome of \<open>str()\<close> on each.
\<close>

definition text_kwarg :: "string \<Rightarrow> string \<Rightarrow> (string \<times> 'a kwval) list \<Rightarrow> string option" where
  "text_kwarg key dflt kwargs =
     (case map_of kwargs key of
        None \<Rightarrow> Some dflt
      | Some KwNone \<Rightarrow> Some dflt
      | Some (KwStr s) \<Rightarrow> Some s
      | Some (KwFile f) \<Rightarrow> None
      | Some (KwOther x) \<Rightarrow> None)"

definition file_kwarg :: "(string \<times> 'a kwval) list \<Rightarrow> stream option" where
  "file_kwarg kwargs =
     (case map_of kwargs ''file'' of
        None \<Rightarrow> Some Stdout
      | Some KwNone \<Rightarrow> Some Stdout
      | Some (KwFile f) \<Rightarrow> Some f
      | Some (KwStr s) \<Rightarrow> None
      | Some (KwOther x) \<Rightarrow> None)"

fun write_objects ::
  "stream \<Rightarrow> string \<Rightarrow> bool \<Rightarrow> ('e error + string) list \<Rightarrow> io \<Rightarrow> io \<times> ('e error + unit)" where
  "write_objects f sep first [] out = (out, Inr ())"
| "write_objects f sep first (x # xs) out =
     (let out1 = (if first then out else file_write f sep out) in
      case x of
        Inl e \<Rightarrow> (out1, Inl e)
      | Inr s \<Rightarrow> write_objects f sep False xs (file_write f s out1))"

definition print ::
  "('e error + string) list \<Rightarrow> (string \<times> 'a kwval) list \<Rightarrow> io \<Rightarrow> io \<times> ('e error + unit)" where
  "print objects kwargs out =
     (if \<not> list_all (\<lambda>key. key \<in> set [''sep'', ''end'', ''file'', ''flush'']) (map fst kwargs)
      then (out, Inl TypeError)
      else
        case text_kwarg ''sep'' '' '' kwargs of
          None \<Rightarrow> (out, Inl TypeError)
        | Some sep \<Rightarrow>
        (case text_kwarg ''end'' [CHR 0x0A] kwargs of
          None \<Rightarrow> (out, Inl TypeError)
        | Some end_str \<Rightarrow>
        (case file_kwarg kwargs of
          None \<Rightarrow> (out, Inl AttributeError)
        | Some f \<Rightarrow>
        (case write_objects f sep True objects out of
          (out1, Inl e) \<Rightarrow> (out1, Inl e)
        | (out1, Inr u) \<Rightarrow> (file_write f end_str out1, Inr ())))))"

text \<open>
  \<open>traceback.print_stack()\<close> writes the text of the current call stack to standard
  error.
\<close>

definition print_stack :: "string \<Rightarrow> io \<Rightarrow> io" where
  "print_stack stack out = file_write Stderr stack out"

text \<open>
  \<open>_raise_assert_with_print(*args, **kwargs)\<close>. What the function reads from its
  environment is a parameter: \<open>str\<close> is the outcome of Python's \<open>str()\<close> on an
  argument, \<open>get_rank\<close> the outcome of \<open>dist.get_rank()\<close> (which raises when there
  is no process group), and \<open>stack\<close> the text of the call stack. An exception raised
  on the way ends the call. \<open>AssertionError(*args, **kwargs)\<close> accepts no keyword
  argument: with any, building the exception raises \<open>TypeError\<close>. The result pairs
  the output written so far with the exception raised, or with the unit value if
  the function were to return.
\<close>

definition raise_assert_with_print ::
  "('a \<Rightarrow> 'a error + string) \<Rightarrow> 'a error + int \<Rightarrow> string \<Rightarrow> 'a list
     \<Rightarrow> (string \<times> 'a kwval) list \<Rightarrow> io \<Rightarrow> io \<times> ('a error + unit)" where
  "raise_assert_with_print str get_rank stack args kwargs out =
     (case get_rank of
        Inl e \<Rightarrow> (out, Inl e)
      | Inr r \<Rightarrow>
      (case print [Inr (''[Rank '' @ str_int r @ ''] '')]
              [(''end'', KwStr []) :: string \<times> 'a kwval] out of
        (out1, Inl e) \<Rightarrow> (out1, Inl e)
      | (out1, Inr u) \<Rightarrow>
      (case print (map str args) kwargs out1 of
        (out2, Inl e) \<Rightarrow> (out2, Inl e)
      | (out2, Inr u) \<Rightarrow>
          let out3 = print_stack stack out2
          in (out3, Inl (if kwargs = [] then AssertionError args else TypeError)))))"

section \<open>Tensors\<close>

text \<open>
  Modelled from the spec: \<open>torch.Tensor\<close>, \<open>torch.chunk\<close> and \<open>Tensor.new_empty\<close> are
  not under \<open>src/\<close>. A tensor is what the functions of this module read of it: its
  dtype, device and \<open>requires_grad\<close> flag, its shape, and its elements in row-major
  order. A well-formed tensor has as many elements as the product of its shape.
\<close>

datatype dtype = float32 | float16 | bfloat16 | float64 | int32 | int64

datatype device = cpu | cuda nat

record 'a Tensor =
  dtype :: dtype
  device :: device
  requires_grad :: bool
  shape :: "nat list"
  data :: "'a list"

definition numel :: "'a Tensor \<Rightarrow> nat" where
  "numel t = prod_list (shape t)"

definition well_formed :: "'a Tensor \<Rightarrow> bool" where
  "well_formed t = (length (data t) = numel t)"

text \<open>
  Modelled from the spec: \<open>Tensor.narrow\<close> (not under \<open>src/\<close>), the contiguous piece
  of a tensor along one dimension that the split is made of.
  \<open>narrow t d start len\<close> is the slice of \<open>t\<close> that keeps the indices
  \<open>start ..< start + len\<close> of dimension \<open>d\<close>. In row-major order the elements of \<open>t\<close>
  are \<open>outer\<close> blocks of \<open>L * inner\<close> elements, \<open>L\<close> the size of dimension \<open>d\<close>;
  the slice keeps \<open>len * inner\<close> elements of each block.
\<close>

definition narrow :: "'a Tensor \<Rightarrow> nat \<Rightarrow> nat \<Rightarrow> nat \<Rightarrow> 'a Tensor" where
  "narrow t d start len =
     (let outer = prod_list (take d (shape t));
          L = shape t ! d;
          inner = prod_list (drop (Suc d) (shape t))
      in t\<lparr>shape := (shape t)[d := len],
           data := concat (map (\<lambda>blk. take (len * inner) (drop ((blk * L + start) * inner) (data t)))
                              [0 ..< outer])\<rparr>)"

text \<open>
  Modelled from the spec: \<open>torch.split\<close> with one piece length (not under \<open>src/\<close>),
  the split \<open>torch.chunk\<close> makes. The pieces are \<open>split_size\<close> long along
  dimension \<open>d\<close>, the last one shorter when the dimension is not a multiple of
  \<open>split_size\<close>; there is always at least one piece.
\<close>

definition split :: "'a Tensor \<Rightarrow> nat \<Rightarrow> nat \<Rightarrow> 'a Tensor list" where
  "split t split_size d =
     (let dim_size = shape t ! d;
          num_splits = (if split_size = 0 then 1
                        else max ((dim_size + split_size - 1) div split_size) 1);
          last_split_size = split_size - (split_size * num_splits - dim_size)
      in map (\<lambda>i. narrow t d (i * split_size)
                     (if i < num_splits - 1 then split_size else last_split_size))
             [0 ..< num_splits])"

text \<open>
  Modelled from the spec: \<open>torch.chunk(t, chunks, dim)\<close> (not under \<open>src/\<close>). The
  spec has the pieces \<open>ceil(L / N)\<close> long along the split dimension, so that fewer
  than \<open>N\<close> pieces come back when the dimension is too small. On an empty
  dimension the piece length is \<open>0\<close> and the operation returns \<open>N\<close> pieces of
  length \<open>0\<close>. A tensor without dimensions and a non-positive number of chunks
  are refused with \<open>RuntimeError\<close>; the dimension index may count from the end,
  and raises \<open>IndexError\<close> out of range.
\<close>

definition torch_chunk :: "'a Tensor \<Rightarrow> int \<Rightarrow> int \<Rightarrow> 'e error + 'a Tensor list" where
  "torch_chunk t chunks dim =
     (let ndim = int (length (shape t)) in
      if ndim = 0 then Inl RuntimeError
      else if chunks \<le> 0 then Inl RuntimeError
      else if dim < - ndim \<or> ndim \<le> dim then Inl IndexError
      else
        let d = nat (if dim < 0 then dim + ndim else dim);
            n = nat chunks;
            dim_size = shape t ! d;
            split_size = (dim_size + n - 1) div n
        in if split_size = 0 \<and> dim_size = 0 then Inr (replicate n (narrow t d 0 0))
           else Inr (split t split_size d))"

text \<open>
  Modelled from the spec: \<open>c.new_empty(0)\<close> (\<open>Tensor.new_empty\<close> is not under
  \<open>src/\<close>), a fresh one-dimensional tensor of length \<open>0\<close> with the dtype and the
  device of \<open>c\<close>, which does not require a gradient.
\<close>

definition new_empty_0 :: "'a Tensor \<Rightarrow> 'a Tensor" where
  "new_empty_0 c =
     \<lparr>dtype = dtype c, device = device c, requires_grad = False, shape = [0], data = []\<rparr>"

text \<open>
  \<open>_chunk_with_empty(tensor, num_chunks, dim)\<close>. The \<open>while\<close> loop is
  \<open>chunk_loop\<close>; \<open>chunks[0]\<close> raises \<open>IndexError\<close> on an empty list.
\<close>

function chunk_loop :: "'a Tensor list \<Rightarrow> int \<Rightarrow> 'e error + 'a Tensor list" where
  "chunk_loop chunks num_chunks =
     (if int (length chunks) < num_chunks then
        (case chunks of
           [] \<Rightarrow> Inl IndexError
         | c0 # rest \<Rightarrow> chunk_loop (chunks @ [new_empty_0 c0]) num_chunks)
      else Inr chunks)"
  by pat_completeness auto
termination
  by (relation "measure (\<lambda>(chunks, num_chunks). nat (num_chunks - int (length chunks)))") auto

definition chunk_with_empty :: "'a Tensor \<Rightarrow> int \<Rightarrow> int \<Rightarrow> 'e error + 'a Tensor list" where
  "chunk_with_empty tensor num_chunks dim =
     (case torch_chunk tensor num_chunks dim of
        Inl e \<Rightarrow> Inl e
      | Inr chunks \<Rightarrow> chunk_loop chunks num_chunks)"

text \<open>
  The concatenation along dimension \<open>d\<close> of tensors that agree on dtype, device and
  every other dimension: block by block, the elements of each piece in turn. It is
  the yardstick for "the pieces partition the tensor", and no part of the module.
\<close>

definition cat_dim :: "nat \<Rightarrow> 'a Tensor list \<Rightarrow> 'a Tensor option" where
  "cat_dim d ts =
     (case ts of
        [] \<Rightarrow> None
      | t0 # rest \<Rightarrow>
          if list_all (\<lambda>t. d < length (shape t) \<and> (shape t)[d := 0] = (shape t0)[d := 0]
                            \<and> dtype t = dtype t0 \<and> device t = device t0) ts
          then
            let outer = prod_list (take d (shape t0));
                inner = prod_list (drop (Suc d) (shape t0))
            in Some (t0\<lparr>shape := (shape t0)[d := sum_list (map (\<lambda>t. shape t ! d) ts)],
                        data := concat (map (\<lambda>blk. concat (map (\<lambda>t.
                                   take (shape t ! d * inner)
                                     (drop (blk * (shape t ! d) * inner) (data t))) ts))
                                 [0 ..< outer])\<rparr>)
          else None)"

section \<open>Distributed tensor from a local shard\<close>

text \<open>
  Modelled from the spec: \<open>DTensor\<close> and \<open>Placement\<close> (\<open>torch.distributed._tensor\<close>)
  are not under \<open>src/\<close>. The spec describes the result as a view object that
  represents the global logical tensor without copying the local data and without
  automatic-differentiation bookkeeping. A \<open>DTensor\<close> is the local tensor it
  wraps, the mesh and the placements, the global shape, stride and dtype, its
  \<open>requires_grad\<close> flag, and the \<open>grad_fn\<close> that automatic differentiation attaches
  to the result of a differentiable operation (\<open>None\<close> on a leaf).
\<close>

datatype Placement = Shard nat | Replicate | Partial

record 'a DTensor =
  dt_local_tensor :: "'a Tensor"
  dt_device_mesh :: DeviceMesh
  dt_placements :: "Placement list"
  dt_shape :: "int list"
  dt_stride :: "int list"
  dt_dtype :: dtype
  dt_requires_grad :: bool
  dt_grad_fn :: "string option"

text \<open>
  Modelled from the spec: the constructor \<open>DTensor(local_tensor, device_mesh,
  placements, shape=, dtype=, requires_grad=, stride=)\<close> (not under \<open>src/\<close>). It
  builds a wrapper that holds the local tensor it was given and the metadata it
  was told; the wrapper is a fresh leaf without \<open>grad_fn\<close>.
\<close>

definition DTensor_new ::
  "'a Tensor \<Rightarrow> DeviceMesh \<Rightarrow> Placement list \<Rightarrow> int list \<Rightarrow> dtype \<Rightarrow> bool \<Rightarrow> int list \<Rightarrow> 'a DTensor" where
  "DTensor_new local_tensor device_mesh placements shape_arg dtype_arg requires_grad_arg stride_arg =
     \<lparr>dt_local_tensor = local_tensor, dt_device_mesh = device_mesh,
      dt_placements = placements, dt_shape = shape_arg, dt_stride = stride_arg,
      dt_dtype = dtype_arg, dt_requires_grad = requires_grad_arg, dt_grad_fn = None\<rparr>"

text \<open>\<open>_from_local_no_grad\<close>: the constructor call, argument by argument.\<close>

definition from_local_no_grad ::
  "'a Tensor \<Rightarrow> DeviceMesh \<Rightarrow> Placement list \<Rightarrow> int list \<Rightarrow> int list \<Rightarrow> 'a DTensor" where
  "from_local_no_grad local_tensor device_mesh placements global_size global_stride =
     DTensor_new local_tensor device_mesh placements
       global_size (dtype local_tensor) (requires_grad local_tensor) global_stride"

section \<open>Example inputs\<close>

text \<open>
  A one-dimensional tensor of two elements (the spec's scenario of two real chunks
  and two placeholders), a \<open>2 \<times> 3\<close> matrix, and a matrix without rows.
\<close>

definition vec2 :: "nat Tensor" where
  "vec2 = \<lparr>dtype = float32, device = cuda 0, requires_grad = False,
           shape = [2], data = [7, 8]\<rparr>"

definition mat2x3 :: "nat Tensor" where
  "mat2x3 = \<lparr>dtype = float32, device = cpu, requires_grad = True,
             shape = [2, 3], data = [1, 2, 3, 4, 5, 6]\<rparr>"

definition mat0x3 :: "nat Tensor" where
  "mat0x3 = \<lparr>dtype = int64, device = cpu, requires_grad = False,
             shape = [0, 3], data = []\<rparr>"

text \<open>No output written yet.\<close>

definition no_output :: io where
  "no_output = \<lparr>stdout = [], stderr = [], files = (\<lambda>n. [])\<rparr>"

section \<open>Properties of the padding\<close>

lemma round_up_least:
  fixes L F m :: int
  assumes "0 < F" "F dvd m" "L \<le> m" "L mod F \<noteq> 0"
  shows "L + F - L mod F \<le> m"
proof -
  obtain k where k: "m = F * k" using assms(2) by (auto simp: dvd_def)
  have L: "L = F * (L div F) + L mod F" by simp
  have pos: "0 < L mod F" using assms(1,4) pos_mod_sign [of F L] by linarith
  have "F * (L div F) < F * k" using L pos assms(3) k by linarith
  then have "L div F < k" using assms(1) by (simp add: mult_less_cancel_left_pos)
  then have "L div F + 1 \<le> k" by simp
  then have "F * (L div F + 1) \<le> F * k" using assms(1) by (simp add: mult_le_cancel_left_pos)
  then have "F * (L div F) + F \<le> m" using k by (simp add: algebra_simps)
  moreover have "L - L mod F = F * (L div F)" by (simp add: minus_mod_eq_mult_div)
  ultimately show ?thesis by linarith
qed

lemma round_up_dvd:
  fixes L F :: int
  shows "F dvd L + F - L mod F"
proof -
  have "L + F - L mod F = F * (L div F + 1)"
    by (simp add: algebra_simps minus_mod_eq_mult_div)
  then show ?thesis by simp
qed

text \<open>
  C2. For a size with leading dimension \<open>L\<close> and a factor \<open>F > 0\<close> the call returns a
  size \<open>L' # rest\<close> with the same non-leading dimensions, where \<open>L' = F\<close> when
  \<open>L < F\<close>; when \<open>L \<ge> F\<close>, \<open>L'\<close> is a multiple of \<open>F\<close>, at least \<open>L\<close>, and no
  multiple of \<open>F\<close> that is at least \<open>L\<close> is smaller; and \<open>L' = L\<close> when \<open>F\<close> divides
  \<open>L\<close> and \<open>L \<ge> F\<close>.
\<close>

theorem padded_size_leading_dim:
  assumes "0 < F"
  shows "\<exists>L'. (get_dim0_padded_size (L # rest) F :: 'e error + int list) = Inr (L' # rest)
           \<and> (L < F \<longrightarrow> L' = F)
           \<and> (F \<le> L \<longrightarrow> F dvd L' \<and> L \<le> L' \<and> (\<forall>m. F dvd m \<and> L \<le> m \<longrightarrow> L' \<le> m))
           \<and> (F \<le> L \<and> F dvd L \<longrightarrow> L' = L)"
proof (cases "L < F")
  case True
  then show ?thesis by simp
next
  case ge: False
  show ?thesis
  proof (cases "L mod F = 0")
    case True
    then show ?thesis using ge assms by (auto simp: mod_eq_0_iff_dvd)
  next
    case nz: False
    have "F dvd L + F - L mod F" by (rule round_up_dvd)
    moreover have "L \<le> L + F - L mod F"
      using pos_mod_bound [of F L] assms by linarith
    moreover have "\<forall>m. F dvd m \<and> L \<le> m \<longrightarrow> L + F - L mod F \<le> m"
      using round_up_least [OF assms] nz by blast
    moreover have "\<not> F dvd L" using nz by (simp add: mod_eq_0_iff_dvd)
    ultimately show ?thesis using ge nz assms by simp
  qed
qed

theorem padded_size_leading_dim_witness:
  "(0::int) < 4
   \<and> (get_dim0_padded_size [10, 7, 5] 4 :: unit error + int list) = Inr [12, 7, 5]
   \<and> (get_dim0_padded_size [2, 7, 5] 4 :: unit error + int list) = Inr [4, 7, 5]
   \<and> (get_dim0_padded_size [8, 7, 5] 4 :: unit error + int list) = Inr [8, 7, 5]
   \<and> (\<exists>L'. (get_dim0_padded_size [10, 7, 5] 4 :: unit error + int list) = Inr [L', 7, 5]
         \<and> 4 dvd L' \<and> 10 \<le> L' \<and> (\<forall>m. 4 dvd m \<and> 10 \<le> m \<longrightarrow> L' \<le> m))"
proof -
  have h: "(0::int) < 4" by simp
  from padded_size_leading_dim [OF h, of 10 "[7, 5]", where 'e = unit]
  obtain L' where
    "(get_dim0_padded_size [10, 7, 5] 4 :: unit error + int list) = Inr [L', 7, 5]"
    "4 dvd L' \<and> 10 \<le> L' \<and> (\<forall>m. 4 dvd m \<and> 10 \<le> m \<longrightarrow> L' \<le> m)"
    by auto
  then show ?thesis by auto
qed

text \<open>
  C6. Padding is idempotent: for a factor \<open>F > 0\<close>, whatever size the call returns
  is returned unchanged when it is padded again with the same factor.
\<close>

theorem padded_size_idempotent:
  assumes "0 < F"
    and "(get_dim0_padded_size ts F :: 'e error + int list) = Inr r"
  shows "(get_dim0_padded_size r F :: 'e error + int list) = Inr r"
proof (cases ts)
  case Nil
  then show ?thesis using assms(2) by simp
next
  case (Cons L rest)
  have dvd: "(L + F - L mod F) mod F = 0"
    using round_up_dvd [of F L] by (simp add: mod_eq_0_iff_dvd)
  have ge: "\<not> L < F \<Longrightarrow> \<not> L + F - L mod F < F"
    using pos_mod_bound [of F L] assms(1) by linarith
  show ?thesis
    using assms Cons dvd ge by (auto split: if_splits)
qed

theorem padded_size_idempotent_witness:
  "(0::int) < 4
   \<and> (get_dim0_padded_size [10, 3] 4 :: unit error + int list) = Inr [12, 3]
   \<and> (get_dim0_padded_size [12, 3] 4 :: unit error + int list) = Inr [12, 3]"
proof -
  have h: "(0::int) < 4" by simp
  have a: "(get_dim0_padded_size [10, 3] 4 :: unit error + int list) = Inr [12, 3]" by simp
  from padded_size_idempotent [OF h a] show ?thesis using a by simp
qed

section \<open>Properties of the mesh-info classes\<close>

text \<open>The method resolution orders are the C3 linearisations of the base classes.\<close>

lemma mro_is_c3_linearisation:
  "c3_merge 8 (map mro (bases c) @ [bases c]) = Some (tl (mro c))"
  by (cases c) (simp_all add: eval_nat_numeral Let_def)

text \<open>
  In the resolution order of \<open>HSDPMeshInfo\<close> the class after \<open>FSDPMeshInfo\<close> is
  \<open>DDPMeshInfo\<close>, and the class after \<open>DDPMeshInfo\<close> is the base class. The two
  \<open>super\<close> calls of \<open>HSDPMeshInfo.__post_init__\<close> therefore run the replicate
  parent and then the base check: constructing the hybrid class does exactly what
  constructing \<open>DDPMeshInfo\<close> does.
\<close>

lemma HSDPMeshInfo_init_is_DDPMeshInfo_init:
  "init HSDPMeshInfo m s r = init DDPMeshInfo m s r"
  by (auto simp: init_def super_post_init_def split: sum.splits option.splits)

text \<open>
  C4. For every mesh, constructing the base class \<open>DataParallelMeshInfo\<close> with both
  \<open>shard_mesh_dim\<close> and \<open>replicate_mesh_dim\<close> unset fails: it raises the
  \<open>AssertionError\<close> of the base check (the spec's InvalidConfiguration).
\<close>

theorem DataParallelMeshInfo_requires_a_dim:
  "init DataParallelMeshInfo m None None =
     Inl (AssertionError
       [''At least one of shard_mesh_dim and replicate_mesh_dim must not be None''])"
  by (simp add: init_def)

text \<open>
  C5. Constructing \<open>FSDPMeshInfo\<close> with \<open>shard_mesh_dim\<close> unset raises an
  \<open>AssertionError\<close> (the spec's InvalidConfiguration), whatever the replicate
  dimension is. With \<open>shard_mesh_dim = d\<close> the construction succeeds exactly when
  the mesh answers \<open>size(d)\<close> and \<open>get_group(d)\<close>, and the object it returns has
  \<open>shard_mesh_size\<close> equal to \<open>mesh.size(d)\<close> and \<open>shard_mesh_rank\<close> equal to the
  position of the current process in the group \<open>mesh.get_group(d)\<close>, with no
  replicate attribute assigned. \<open>DDPMeshInfo\<close> satisfies the mirrored statement for
  \<open>replicate_mesh_dim\<close>.
\<close>

theorem FSDPMeshInfo_DDPMeshInfo_init:
  "(\<exists>msg. init FSDPMeshInfo m None r = Inl (AssertionError msg))
   \<and> (init FSDPMeshInfo m (Some d) r = Inr obj \<longleftrightarrow>
        (\<exists>sz g. mesh_size m d = (Inr sz :: string error + int)
              \<and> get_group m d = (Inr g :: string error + ProcessGroup)
              \<and> obj = \<lparr>mesh = m, shard_mesh_dim = Some d, replicate_mesh_dim = r,
                       shard_mesh_size = Some sz, shard_process_group = Some g,
                       shard_mesh_rank = Some (rank g),
                       replicate_mesh_size = None, replicate_process_group = None,
                       replicate_mesh_rank = None\<rparr>))
   \<and> (\<exists>msg. init DDPMeshInfo m s None = Inl (AssertionError msg))
   \<and> (init DDPMeshInfo m s (Some d') = Inr obj' \<longleftrightarrow>
        (\<exists>sz g. mesh_size m d' = (Inr sz :: string error + int)
              \<and> get_group m d' = (Inr g :: string error + ProcessGroup)
              \<and> obj' = \<lparr>mesh = m, shard_mesh_dim = s, replicate_mesh_dim = Some d',
                       shard_mesh_size = None, shard_process_group = None,
                       shard_mesh_rank = None,
                       replicate_mesh_size = Some sz, replicate_process_group = Some g,
                       replicate_mesh_rank = Some (rank g)\<rparr>))"
  by (auto simp: init_def super_post_init_def split: sum.splits option.splits)

theorem FSDPMeshInfo_DDPMeshInfo_init_witness:
  "(\<exists>msg. init FSDPMeshInfo mesh_2x3 None (Some 1) = Inl (AssertionError msg))
   \<and> init FSDPMeshInfo mesh_2x3 (Some 0) None =
        Inr \<lparr>mesh = mesh_2x3, shard_mesh_dim = Some 0, replicate_mesh_dim = None,
             shard_mesh_size = Some 2,
             shard_process_group = Some \<lparr>pg_ranks = [1, 4], pg_self = 4\<rparr>,
             shard_mesh_rank = Some 1,
             replicate_mesh_size = None, replicate_process_group = None,
             replicate_mesh_rank = None\<rparr>
   \<and> (\<exists>msg. init DDPMeshInfo mesh_2x3 (Some 0) None = Inl (AssertionError msg))
   \<and> init DDPMeshInfo mesh_2x3 None (Some 1) =
        Inr \<lparr>mesh = mesh_2x3, shard_mesh_dim = None, replicate_mesh_dim = Some 1,
             shard_mesh_size = None, shard_process_group = None,
             shard_mesh_rank = None,
             replicate_mesh_size = Some 3,
             replicate_process_group = Some \<lparr>pg_ranks = [3, 4, 5], pg_self = 4\<rparr>,
             replicate_mesh_rank = Some 1\<rparr>"
proof -
  have sz0: "mesh_size mesh_2x3 0 = (Inr 2 :: string error + int)"
    and sz1: "mesh_size mesh_2x3 1 = (Inr 3 :: string error + int)"
    by (simp_all add: mesh_size_def mesh_2x3_def)
  have g0: "get_group mesh_2x3 0
              = (Inr \<lparr>pg_ranks = [1, 4], pg_self = 4\<rparr> :: string error + ProcessGroup)"
    and g1: "get_group mesh_2x3 1
              = (Inr \<lparr>pg_ranks = [3, 4, 5], pg_self = 4\<rparr> :: string error + ProcessGroup)"
    by (simp_all add: get_group_def mesh_2x3_def coordinate_def upt_conv_Cons)
  have r0: "rank \<lparr>pg_ranks = [1, 4], pg_self = 4\<rparr> = 1"
    and r1: "rank \<lparr>pg_ranks = [3, 4, 5], pg_self = 4\<rparr> = 1"
    by (simp_all add: rank_def)
  note fails = FSDPMeshInfo_DDPMeshInfo_init
    [where m = mesh_2x3 and r = "Some 1" and s = "Some 0" and d = 0 and d' = 1]
  note succeeds = FSDPMeshInfo_DDPMeshInfo_init
    [where m = mesh_2x3 and r = None and s = None and d = 0 and d' = 1
       and obj = "\<lparr>mesh = mesh_2x3, shard_mesh_dim = Some 0, replicate_mesh_dim = None,
             shard_mesh_size = Some 2,
             shard_process_group = Some \<lparr>pg_ranks = [1, 4], pg_self = 4\<rparr>,
             shard_mesh_rank = Some 1,
             replicate_mesh_size = None, replicate_process_group = None,
             replicate_mesh_rank = None\<rparr>"
       and obj' = "\<lparr>mesh = mesh_2x3, shard_mesh_dim = None, replicate_mesh_dim = Some 1,
             shard_mesh_size = None, shard_process_group = None,
             shard_mesh_rank = None,
             replicate_mesh_size = Some 3,
             replicate_process_group = Some \<lparr>pg_ranks = [3, 4, 5], pg_self = 4\<rparr>,
             replicate_mesh_rank = Some 1\<rparr>"]
  have "\<exists>msg. init FSDPMeshInfo mesh_2x3 None (Some 1) = Inl (AssertionError msg)"
    and "\<exists>msg. init DDPMeshInfo mesh_2x3 (Some 0) None = Inl (AssertionError msg)"
    using fails by blast+
  then show ?thesis
    using succeeds sz0 sz1 g0 g1 r0 r1 by simp
qed

text \<open>
  C1. On the spec's \<open>2 \<times> 3\<close> mesh with \<open>shard_mesh_dim = 0\<close> and
  \<open>replicate_mesh_dim = 1\<close>, constructing \<open>HSDPMeshInfo\<close> succeeds and assigns
  \<open>replicate_mesh_size = 3\<close> and \<open>replicate_mesh_rank\<close>, but \<open>shard_mesh_size\<close> and
  \<open>shard_mesh_rank\<close> are never assigned, so reading \<open>shard_mesh_size\<close> raises
  \<open>AttributeError\<close>: the body of \<open>FSDPMeshInfo.__post_init__\<close> does not run. Nor is
  a missing \<open>shard_mesh_dim\<close> rejected. \<open>FSDPMeshInfo\<close> itself, on the same input,
  assigns \<open>shard_mesh_size = 2\<close>.
\<close>

theorem HSDPMeshInfo_skips_shard_parent:
  "(\<exists>obj. init HSDPMeshInfo mesh_2x3 (Some 0) (Some 1) = Inr obj
       \<and> replicate_mesh_size obj = Some 3 \<and> replicate_mesh_rank obj = Some 1
       \<and> shard_mesh_size obj = None \<and> shard_mesh_rank obj = None
       \<and> shard_process_group obj = None
       \<and> (read_attr (shard_mesh_size obj) :: string error + int) = Inl AttributeError)
   \<and> (\<exists>obj. init HSDPMeshInfo mesh_2x3 None (Some 1) = Inr obj)
   \<and> (\<exists>obj. init FSDPMeshInfo mesh_2x3 (Some 0) (Some 1) = Inr obj
       \<and> shard_mesh_size obj = Some 2 \<and> shard_mesh_rank obj = Some 1)"
  by (simp add: init_def super_post_init_def mesh_size_def get_group_def mesh_2x3_def
        coordinate_def rank_def read_attr_def upt_conv_Cons)

section \<open>Properties of the composability check\<close>

text \<open>
  C7. The check answers \<open>False\<close> when the module's registry lists the \<open>replicate\<close>
  wrapper, and \<open>True\<close> when the module has no registry or when the registry, empty
  or not, does not list it.
\<close>

theorem is_composable_with_fsdp_registry:
  "(get_registry module = Some reg \<and> ''replicate'' \<in> dom reg
      \<longrightarrow> is_composable_with_fsdp module = False)
   \<and> (get_registry module = None \<longrightarrow> is_composable_with_fsdp module = True)
   \<and> (get_registry module = Some reg \<and> ''replicate'' \<notin> dom reg
      \<longrightarrow> is_composable_with_fsdp module = True)"
  by (auto simp: is_composable_with_fsdp_def)

theorem is_composable_with_fsdp_registry_witness:
  "is_composable_with_fsdp
     \<lparr>registry_attr = Some [''fully_shard'' \<mapsto> (0::nat), ''replicate'' \<mapsto> 1]\<rparr> = False
   \<and> is_composable_with_fsdp \<lparr>registry_attr = (None :: (string \<rightharpoonup> nat) option)\<rparr> = True
   \<and> is_composable_with_fsdp
       \<lparr>registry_attr = Some (Map.empty :: string \<rightharpoonup> nat)\<rparr> = True
   \<and> is_composable_with_fsdp
       \<lparr>registry_attr = Some [''fully_shard'' \<mapsto> (0::nat)]\<rparr> = True"
proof -
  have a: "is_composable_with_fsdp
     \<lparr>registry_attr = Some [''fully_shard'' \<mapsto> (0::nat), ''replicate'' \<mapsto> 1]\<rparr> = False"
    using is_composable_with_fsdp_registry
      [of "\<lparr>registry_attr = Some [''fully_shard'' \<mapsto> (0::nat), ''replicate'' \<mapsto> 1]\<rparr>"
          "[''fully_shard'' \<mapsto> (0::nat), ''replicate'' \<mapsto> 1]"]
    by (simp add: get_registry_def)
  have b: "is_composable_with_fsdp \<lparr>registry_attr = (None :: (string \<rightharpoonup> nat) option)\<rparr> = True"
    using is_composable_with_fsdp_registry
      [of "\<lparr>registry_attr = (None :: (string \<rightharpoonup> nat) option)\<rparr>" Map.empty]
    by (simp add: get_registry_def)
  have c: "is_composable_with_fsdp
       \<lparr>registry_attr = Some (Map.empty :: string \<rightharpoonup> nat)\<rparr> = True"
    using is_composable_with_fsdp_registry
      [of "\<lparr>registry_attr = Some (Map.empty :: string \<rightharpoonup> nat)\<rparr>" Map.empty]
    by (simp add: get_registry_def)
  have d: "is_composable_with_fsdp
       \<lparr>registry_attr = Some [''fully_shard'' \<mapsto> (0::nat)]\<rparr> = True"
    using is_composable_with_fsdp_registry
      [of "\<lparr>registry_attr = Some [''fully_shard'' \<mapsto> (0::nat)]\<rparr>"
          "[''fully_shard'' \<mapsto> (0::nat)]"]
    by (simp add: get_registry_def)
  show ?thesis using a b c d by simp
qed

section \<open>Properties of the assertion helper\<close>

lemma file_write_twice: "file_write f b (file_write f a out) = file_write f (a @ b) out"
  by (cases f) (simp_all add: file_write_def)

lemma file_write_nothing: "file_write f [] out = out"
  by (cases f) (simp_all add: file_write_def)

lemma write_objects_rest:
  "write_objects f sep False (map Inr texts) out
     = (file_write f (concat (map (\<lambda>t. sep @ t) texts)) out, Inr ())"
  by (induction texts arbitrary: out) (simp_all add: file_write_nothing file_write_twice)

lemma join_Cons: "join sep (t # ts) = t @ concat (map (\<lambda>t. sep @ t) ts)"
  by (induction ts arbitrary: t) simp_all

lemma write_objects_rendered:
  "write_objects f sep True (map Inr texts) out = (file_write f (join sep texts) out, Inr ())"
  by (cases texts)
     (simp_all add: file_write_nothing write_objects_rest join_Cons file_write_twice)

text \<open>Whatever the arguments and the environment, the call ends in an exception.\<close>

lemma raise_assert_with_print_never_returns:
  "\<exists>out' e. raise_assert_with_print str get_rank stack args kwargs out = (out', Inl e)"
  by (simp add: raise_assert_with_print_def Let_def split: sum.splits prod.splits)

text \<open>
  Without keyword arguments, with a rank at hand and arguments that \<open>str()\<close>
  renders, the call raises the \<open>AssertionError\<close> that carries the arguments, having
  written \<open>[Rank r]\<close> and the arguments to standard output and the stack to standard
  error.
\<close>

lemma raise_assert_with_print_positional:
  assumes "get_rank = Inr r" and "map str args = map Inr texts"
  shows "raise_assert_with_print str get_rank stack args [] out =
           (out\<lparr>stdout := stdout out @ ''[Rank '' @ str_int r @ ''] ''
                            @ join '' '' texts @ [CHR 0x0A],
                 stderr := stderr out @ stack\<rparr>,
            Inl (AssertionError args))"
proof -
  have one: "write_objects Stdout sep True [Inr t] o1 = (file_write Stdout t o1, Inr ())"
    for sep t and o1 :: io
    using write_objects_rendered [of Stdout sep "[t]" o1] by simp
  show ?thesis
    using assms
    by (simp add: raise_assert_with_print_def print_def text_kwarg_def file_kwarg_def
          print_stack_def one write_objects_rendered file_write_def)
qed

text \<open>
  With any keyword argument, in the same circumstances, the exception is never
  the \<open>AssertionError\<close>: \<open>print\<close> refuses the keywords, or building the exception
  does.
\<close>

lemma raise_assert_with_print_keywords:
  assumes "kwargs \<noteq> []" and "get_rank = Inr r" and "map str args = map Inr texts"
  shows "snd (raise_assert_with_print str get_rank stack args kwargs out) = Inl TypeError
       \<or> snd (raise_assert_with_print str get_rank stack args kwargs out) = Inl AttributeError"
proof -
  have one: "write_objects Stdout sep True [Inr t] o1 = (file_write Stdout t o1, Inr ())"
    for sep t and o1 :: io
    using write_objects_rendered [of Stdout sep "[t]" o1] by simp
  show ?thesis
    using assms
    by (auto simp: raise_assert_with_print_def print_def text_kwarg_def file_kwarg_def
          print_stack_def one write_objects_rendered Let_def
          split: option.splits prod.splits sum.splits)
qed

text \<open>
  C9. Called as \<open>_raise_assert_with_print("bad", "shape", sep="-")\<close> on rank \<open>3\<close>, the
  helper writes \<open>[Rank 3] bad-shape\<close> to standard output and the stack to standard
  error and then raises \<open>TypeError\<close>, not the \<open>AssertionError\<close> that carries the two
  arguments. The same call without the keyword raises that \<open>AssertionError\<close>.
\<close>

theorem raise_assert_with_print_keyword_TypeError:
  "raise_assert_with_print Inr (Inr 3) ''  File x, line 1'' [''bad'', ''shape'']
       [(''sep'', KwStr ''-'')] no_output
     = (no_output\<lparr>stdout := ''[Rank 3] bad-shape'' @ [CHR 0x0A],
                   stderr := ''  File x, line 1''\<rparr>,
        Inl TypeError)
   \<and> raise_assert_with_print Inr (Inr 3) ''  File x, line 1'' [''bad'', ''shape'']
       [] no_output
     = (no_output\<lparr>stdout := ''[Rank 3] bad shape'' @ [CHR 0x0A],
                   stderr := ''  File x, line 1''\<rparr>,
        Inl (AssertionError [''bad'', ''shape'']))"
  by (simp add: raise_assert_with_print_def print_def text_kwarg_def file_kwarg_def
        print_stack_def file_write_def str_int_def no_output_def)

section \<open>Properties of the local-shard view\<close>

text \<open>
  C8. The object \<open>_from_local_no_grad\<close> returns has the given global size as its
  shape, the given global stride as its stride and the dtype of the local tensor;
  it holds the local tensor it was given, unchanged, under the given mesh and
  placements; and it carries no \<open>grad_fn\<close>, its \<open>requires_grad\<close> flag being the
  local tensor's.
\<close>

theorem from_local_no_grad_view:
  "dt_shape (from_local_no_grad t m ps global_size global_stride) = global_size
   \<and> dt_stride (from_local_no_grad t m ps global_size global_stride) = global_stride
   \<and> dt_dtype (from_local_no_grad t m ps global_size global_stride) = dtype t
   \<and> dt_local_tensor (from_local_no_grad t m ps global_size global_stride) = t
   \<and> dt_device_mesh (from_local_no_grad t m ps global_size global_stride) = m
   \<and> dt_placements (from_local_no_grad t m ps global_size global_stride) = ps
   \<and> dt_requires_grad (from_local_no_grad t m ps global_size global_stride) = requires_grad t
   \<and> dt_grad_fn (from_local_no_grad t m ps global_size global_stride) = None"
  by (simp add: from_local_no_grad_def DTensor_new_def)

section \<open>Properties of chunking\<close>

lemma prod_list_split_at:
  assumes "d < length sh"
  shows "prod_list sh = prod_list (take d sh) * (sh ! d) * prod_list (drop (Suc d) sh)"
proof -
  have "sh = take d sh @ sh ! d # drop (Suc d) sh"
    using assms by (rule id_take_nth_drop)
  then have "prod_list sh = prod_list (take d sh @ sh ! d # drop (Suc d) sh)" by simp
  then show ?thesis by (simp add: mult.assoc)
qed

lemma length_concat_uniform:
  "(\<And>i. i < n \<Longrightarrow> length (f i) = m) \<Longrightarrow> length (concat (map f [0 ..< n])) = n * m"
  by (induction n) simp_all

lemma block_of_concat:
  assumes "\<And>i. i < n \<Longrightarrow> length (f i) = m" and "b < n"
  shows "take m (drop (b * m) (concat (map f [0 ..< n]))) = f b"
  using assms
proof (induction n)
  case 0
  then show ?case by simp
next
  case (Suc n)
  have len: "length (concat (map f [0 ..< n])) = n * m"
    using Suc.prems(1) by (simp add: length_concat_uniform)
  show ?case
  proof (cases "b < n")
    case True
    then have "b * m + m \<le> n * m"
      by (metis Suc_leI mult_Suc mult_le_mono1 add.commute)
    then show ?thesis using Suc.IH [OF _ True] Suc.prems(1) len True by simp
  next
    case False
    then have "b = n" using Suc.prems(2) by simp
    then show ?thesis using len Suc.prems(1) by simp
  qed
qed

lemma concat_consecutive:
  "concat (map (\<lambda>i. take (s * c) (drop ((b + i * s) * c) xs)) [0 ..< n])
     = take (n * s * c) (drop (b * c) xs)"
proof (induction n)
  case 0
  then show ?case by simp
next
  case (Suc n)
  have "take (Suc n * s * c) (drop (b * c) xs)
          = take (n * s * c + s * c) (drop (b * c) xs)"
    by (simp add: algebra_simps)
  also have "\<dots> = take (n * s * c) (drop (b * c) xs)
                    @ take (s * c) (drop (n * s * c) (drop (b * c) xs))"
    by (rule take_add)
  also have "drop (n * s * c) (drop (b * c) xs) = drop ((b + n * s) * c) xs"
    by (simp add: algebra_simps)
  finally show ?case using Suc.IH by simp
qed

lemma narrow_fields [simp]:
  "dtype (narrow t d start len) = dtype t"
  "device (narrow t d start len) = device t"
  "requires_grad (narrow t d start len) = requires_grad t"
  "shape (narrow t d start len) = (shape t)[d := len]"
  by (simp_all add: narrow_def Let_def)

lemma narrow_block:
  assumes cont: "well_formed t" and d: "d < length (shape t)"
    and fits: "start + len \<le> shape t ! d"
    and blk: "blk < prod_list (take d (shape t))"
  shows "take (len * prod_list (drop (Suc d) (shape t)))
           (drop (blk * len * prod_list (drop (Suc d) (shape t))) (data (narrow t d start len)))
         = take (len * prod_list (drop (Suc d) (shape t)))
             (drop ((blk * (shape t ! d) + start) * prod_list (drop (Suc d) (shape t))) (data t))"
proof -
  define outer where "outer = prod_list (take d (shape t))"
  define inner where "inner = prod_list (drop (Suc d) (shape t))"
  define L where "L = shape t ! d"
  define f where "f = (\<lambda>b. take (len * inner) (drop ((b * L + start) * inner) (data t)))"
  have total: "length (data t) = outer * L * inner"
    using cont prod_list_split_at [OF d]
    by (simp add: well_formed_def numel_def outer_def inner_def L_def)
  have flen: "length (f b) = len * inner" if "b < outer" for b
  proof -
    have "b * L + L \<le> outer * L"
      using that by (metis Suc_leI mult_Suc mult_le_mono1 add.commute)
    then have "b * L + start + len \<le> outer * L" using fits by (simp add: L_def)
    then have "(b * L + start + len) * inner \<le> outer * L * inner"
      by (rule mult_le_mono1)
    then show ?thesis by (simp add: f_def total algebra_simps)
  qed
  have "data (narrow t d start len) = concat (map f [0 ..< outer])"
    by (simp add: narrow_def Let_def f_def outer_def inner_def L_def)
  moreover have "take (len * inner) (drop (blk * (len * inner)) (concat (map f [0 ..< outer]))) = f blk"
    using flen blk by (intro block_of_concat) (simp_all add: outer_def)
  ultimately show ?thesis
    by (simp add: f_def inner_def L_def mult.assoc)
qed

lemma cat_dim_narrow:
  assumes cont: "well_formed t" and d: "d < length (shape t)" and K: "0 < K"
    and fits: "\<And>i. i < K \<Longrightarrow> start i + len i \<le> shape t ! d"
    and total: "(\<Sum>i\<leftarrow>[0 ..< K]. len i) = shape t ! d"
    and glue: "\<And>blk. blk < prod_list (take d (shape t)) \<Longrightarrow>
        concat (map (\<lambda>i. take (len i * prod_list (drop (Suc d) (shape t)))
                  (drop ((blk * (shape t ! d) + start i) * prod_list (drop (Suc d) (shape t))) (data t)))
                [0 ..< K])
        = take (shape t ! d * prod_list (drop (Suc d) (shape t)))
            (drop (blk * (shape t ! d) * prod_list (drop (Suc d) (shape t))) (data t))"
  shows "cat_dim d (map (\<lambda>i. narrow t d (start i) (len i)) [0 ..< K]) = Some t"
proof -
  define outer where "outer = prod_list (take d (shape t))"
  define inner where "inner = prod_list (drop (Suc d) (shape t))"
  define L where "L = shape t ! d"
  define cs where "cs = map (\<lambda>i. narrow t d (start i) (len i)) [0 ..< K]"
  have upt: "[0 ..< K] = 0 # [1 ..< K]" using K by (simp add: upt_conv_Cons)
  have cs_cons: "cs = narrow t d (start 0) (len 0) # map (\<lambda>i. narrow t d (start i) (len i)) [1 ..< K]"
    unfolding cs_def by (subst upt) simp
  have ok: "list_all (\<lambda>c. d < length (shape c) \<and> (shape c)[d := 0] = (shape (narrow t d (start 0) (len 0)))[d := 0]
                \<and> dtype c = dtype (narrow t d (start 0) (len 0)) \<and> device c = device (narrow t d (start 0) (len 0))) cs"
    using d by (simp add: cs_def list_all_iff)
  have sumd: "sum_list (map (\<lambda>c. shape c ! d) cs) = L"
    using d total by (simp add: cs_def comp_def L_def)
  have datalen: "length (data t) = outer * L * inner"
    using cont prod_list_split_at [OF d]
    by (simp add: well_formed_def numel_def outer_def inner_def L_def)
  have blocks: "concat (map (\<lambda>c. take (shape c ! d * inner) (drop (blk * (shape c ! d) * inner) (data c))) cs)
                 = take (L * inner) (drop (blk * L * inner) (data t))" if "blk < outer" for blk
  proof -
    have "map (\<lambda>c. take (shape c ! d * inner) (drop (blk * (shape c ! d) * inner) (data c))) cs
          = map (\<lambda>i. take (len i * inner) (drop ((blk * L + start i) * inner) (data t))) [0 ..< K]"
      unfolding cs_def map_map comp_def
    proof (rule map_cong [OF refl])
      fix i assume "i \<in> set [0 ..< K]"
      then have i: "i < K" by simp
      show "take (shape (narrow t d (start i) (len i)) ! d * inner)
              (drop (blk * (shape (narrow t d (start i) (len i)) ! d) * inner) (data (narrow t d (start i) (len i))))
            = take (len i * inner) (drop ((blk * L + start i) * inner) (data t))"
        using narrow_block [OF cont d fits [OF i], of blk] that d
        by (simp add: inner_def L_def outer_def)
    qed
    then show ?thesis using glue [of blk] that by (simp add: inner_def L_def outer_def)
  qed
  have "concat (map (\<lambda>blk. concat (map (\<lambda>c. take (shape c ! d * inner)
                 (drop (blk * (shape c ! d) * inner) (data c))) cs)) [0 ..< outer])
        = concat (map (\<lambda>blk. take (L * inner) (drop ((0 + blk * L) * inner) (data t))) [0 ..< outer])"
    by (rule arg_cong [where f = concat], rule map_cong [OF refl]) (simp add: blocks)
  also have "\<dots> = take (outer * L * inner) (drop (0 * inner) (data t))"
    by (rule concat_consecutive)
  also have "\<dots> = data t" using datalen by simp
  finally have alldata: "concat (map (\<lambda>blk. concat (map (\<lambda>c. take (shape c ! d * inner)
                 (drop (blk * (shape c ! d) * inner) (data c))) cs)) [0 ..< outer]) = data t" .
  have sh0: "take d (shape (narrow t d (start 0) (len 0))) = take d (shape t)"
       "drop (Suc d) (shape (narrow t d (start 0) (len 0))) = drop (Suc d) (shape t)"
    by simp_all
  have "cat_dim d cs = Some ((narrow t d (start 0) (len 0))\<lparr>shape := (shape t)[d := L], data := data t\<rparr>)"
    using ok sumd alldata
    unfolding cat_dim_def cs_cons [symmetric]
    by (subst (1) cs_cons) (simp add: Let_def sh0 outer_def inner_def)
  also have "(narrow t d (start 0) (len 0))\<lparr>shape := (shape t)[d := L], data := data t\<rparr> = t"
    by (simp add: narrow_def Let_def L_def)
  finally show ?thesis by (simp add: cs_def)
qed

lemma ceil_div_bounds:
  fixes L s :: nat
  assumes "0 < s" "0 < L"
  defines "q \<equiv> (L + s - 1) div s"
  shows "0 < q" and "(q - 1) * s < L" and "L \<le> q * s"
proof -
  have decomp: "L + s - 1 = q * s + (L + s - 1) mod s" by (simp add: q_def)
  have r: "(L + s - 1) mod s < s" using assms(1) by simp
  show "L \<le> q * s" using decomp r assms by linarith
  then show "0 < q" using assms(2) by (cases q) auto
  then have "q * s = (q - 1) * s + s" by (cases q) auto
  then show "(q - 1) * s < L" using decomp assms by linarith
qed

lemma chunk_count_le:
  fixes L n :: nat
  assumes "0 < n" "0 < L"
  defines "s \<equiv> (L + n - 1) div n"
  shows "0 < s" and "(L + s - 1) div s \<le> n"
proof -
  show s: "0 < s" and "(L + s - 1) div s \<le> n"
  proof -
    have Ls: "L \<le> s * n" using ceil_div_bounds(3) [OF assms(1,2)] by (simp add: s_def)
    show s: "0 < s" using ceil_div_bounds(1) [OF assms(1,2)] by (simp add: s_def)
    have "L + s - 1 < n * s + s" using Ls s by (simp add: mult.commute)
    then have "L + s - 1 < (n + 1) * s" by simp
    then have "(L + s - 1) div s < n + 1" using s by (simp add: div_less_iff_less_mult)
    then show "(L + s - 1) div s \<le> n" by simp
  qed
qed

lemma sum_list_const_upt: "(\<Sum>i\<leftarrow>[0 ..< k]. (c::nat)) = k * c"
  by (induction k) simp_all

lemma split_partitions:
  assumes cont: "well_formed t" and d: "d < length (shape t)"
    and s: "0 < s" and L: "0 < shape t ! d"
  shows "cat_dim d (split t s d) = Some t"
    and "length (split t s d) = (shape t ! d + s - 1) div s"
proof -
  define L where "L = shape t ! d"
  define q where "q = (L + s - 1) div s"
  define inner where "inner = prod_list (drop (Suc d) (shape t))"
  define last where "last = s - (s * q - L)"
  have Lpos: "0 < L" using assms(4) by (simp add: L_def)
  have q: "0 < q" "(q - 1) * s < L" "L \<le> q * s"
    using ceil_div_bounds [OF s Lpos] by (simp_all add: q_def)
  have maxq: "max q 1 = q" using q(1) by simp
  have qs: "q * s = (q - 1) * s + s" using q(1) by (cases q) auto
  have last: "(q - 1) * s + last = L" using q qs by (simp add: last_def mult.commute)
  define len where "len = (\<lambda>i. if i < q - 1 then s else last)"
  define start where "start = (\<lambda>i::nat. i * s)"
  have m: "max ((shape t ! d + s - 1) div s) 1 = q" using q(1) by (simp add: q_def L_def)
  have s0: "(s = 0) = False" using s by simp
  have "split t s d = map (\<lambda>i. narrow t d (i * s)
                            (if i < q - 1 then s else s - (s * q - shape t ! d))) [0 ..< q]"
    by (simp only: split_def Let_def s0 if_False m)
  then have split_eq: "split t s d = map (\<lambda>i. narrow t d (start i) (len i)) [0 ..< q]"
    by (simp only: len_def start_def last_def L_def)
  show "length (split t s d) = (shape t ! d + s - 1) div s"
    by (simp add: split_eq q_def L_def)
  have upt: "[0 ..< q] = [0 ..< q - 1] @ [q - 1]"
    using q(1) by (cases q) auto
  have fits: "start i + len i \<le> shape t ! d" if "i < q" for i
  proof (cases "i < q - 1")
    case True
    then have "(i + 1) * s \<le> (q - 1) * s" by (intro mult_le_mono1) simp
    then show ?thesis using True q(2) by (simp add: start_def len_def L_def)
  next
    case False
    then have "i = q - 1" using that by simp
    then show ?thesis using last by (simp add: start_def len_def L_def)
  qed
  have total: "(\<Sum>i\<leftarrow>[0 ..< q]. len i) = shape t ! d"
  proof -
    have "(\<Sum>i\<leftarrow>[0 ..< q - 1]. len i) = (\<Sum>i\<leftarrow>[0 ..< q - 1]. s)"
      by (rule arg_cong [where f = sum_list], rule map_cong [OF refl]) (simp add: len_def)
    then have "(\<Sum>i\<leftarrow>[0 ..< q - 1]. len i) = (q - 1) * s" by (simp add: sum_list_const_upt)
    moreover have "len (q - 1) = last" by (simp add: len_def)
    ultimately show ?thesis using last by (subst upt) (simp add: L_def)
  qed
  have glue: "concat (map (\<lambda>i. take (len i * inner) (drop ((blk * L + start i) * inner) (data t))) [0 ..< q])
        = take (L * inner) (drop (blk * L * inner) (data t))" for blk
  proof -
    have "map (\<lambda>i. take (len i * inner) (drop ((blk * L + start i) * inner) (data t))) [0 ..< q - 1]
          = map (\<lambda>i. take (s * inner) (drop ((blk * L + i * s) * inner) (data t))) [0 ..< q - 1]"
      by (rule map_cong [OF refl]) (simp add: len_def start_def)
    then have "concat (map (\<lambda>i. take (len i * inner) (drop ((blk * L + start i) * inner) (data t))) [0 ..< q - 1])
          = concat (map (\<lambda>i. take (s * inner) (drop ((blk * L + i * s) * inner) (data t))) [0 ..< q - 1])"
      by (rule arg_cong)
    also have "\<dots> = take ((q - 1) * s * inner) (drop (blk * L * inner) (data t))"
      by (rule concat_consecutive)
    finally have front: "concat (map (\<lambda>i. take (len i * inner) (drop ((blk * L + start i) * inner) (data t))) [0 ..< q - 1])
          = take ((q - 1) * s * inner) (drop (blk * L * inner) (data t))" .
    have rear: "take (len (q - 1) * inner) (drop ((blk * L + start (q - 1)) * inner) (data t))
          = take (last * inner) (drop ((q - 1) * s * inner) (drop (blk * L * inner) (data t)))"
      by (simp add: len_def start_def algebra_simps)
    have "take (L * inner) (drop (blk * L * inner) (data t))
          = take ((q - 1) * s * inner + last * inner) (drop (blk * L * inner) (data t))"
      using last by (metis distrib_right)
    also have "\<dots> = take ((q - 1) * s * inner) (drop (blk * L * inner) (data t))
                 @ take (last * inner) (drop ((q - 1) * s * inner) (drop (blk * L * inner) (data t)))"
      by (rule take_add)
    finally show ?thesis using front rear by (subst upt) simp
  qed
  show "cat_dim d (split t s d) = Some t"
    unfolding split_eq
  proof (rule cat_dim_narrow [OF cont d q(1) _ total])
    show "start i + len i \<le> shape t ! d" if "i < q" for i
      using that by (rule fits)
    show "concat (map (\<lambda>i. take (len i * prod_list (drop (Suc d) (shape t)))
                  (drop ((blk * (shape t ! d) + start i) * prod_list (drop (Suc d) (shape t))) (data t)))
                [0 ..< q])
        = take (shape t ! d * prod_list (drop (Suc d) (shape t)))
            (drop (blk * (shape t ! d) * prod_list (drop (Suc d) (shape t))) (data t))" for blk
      by (rule glue [unfolded L_def inner_def])
  qed
qed

lemma replicate_as_map: "replicate n x = map (\<lambda>i. x) [0 ..< n]"
  by (simp add: map_replicate_const)

lemma empty_dim_partitions:
  assumes cont: "well_formed t" and d: "d < length (shape t)"
    and n: "0 < n" and L: "shape t ! d = 0"
  shows "cat_dim d (replicate n (narrow t d 0 0)) = Some t"
proof -
  have "cat_dim d (map (\<lambda>i. narrow t d ((\<lambda>i. 0) i) ((\<lambda>i. 0) i)) [0 ..< n]) = Some t"
  proof (rule cat_dim_narrow [OF cont d n])
    show "(\<Sum>i\<leftarrow>[0 ..< n]. 0) = shape t ! d" using L by simp
  qed (simp_all add: L)
  then show ?thesis by (simp add: replicate_as_map)
qed

lemma chunk_loop_pads:
  assumes "chunks \<noteq> []" and "int (length chunks) \<le> num_chunks"
  shows "(chunk_loop chunks num_chunks :: 'e error + 'a Tensor list)
         = Inr (chunks @ replicate (nat num_chunks - length chunks) (new_empty_0 (hd chunks)))"
  using assms
proof (induction "nat num_chunks - length chunks" arbitrary: chunks)
  case 0
  then have "\<not> int (length chunks) < num_chunks" by linarith
  then show ?case using 0 by (subst chunk_loop.simps) simp
next
  case (Suc k)
  obtain c0 rest where cs: "chunks = c0 # rest" using Suc.prems(1) by (cases chunks) auto
  have lt: "int (length chunks) < num_chunks" using Suc.hyps(2) by linarith
  let ?next = "chunks @ [new_empty_0 c0]"
  have k: "k = nat num_chunks - length ?next" using Suc.hyps(2) by simp
  have "(chunk_loop ?next num_chunks :: 'e error + 'a Tensor list)
        = Inr (?next @ replicate (nat num_chunks - length ?next) (new_empty_0 (hd ?next)))"
    using lt by (intro Suc.hyps(1) [OF k]) simp_all
  moreover have "(chunk_loop chunks num_chunks :: 'e error + 'a Tensor list)
                 = chunk_loop ?next num_chunks"
    using lt cs by (subst chunk_loop.simps) simp
  moreover have "nat num_chunks - length chunks = Suc (nat num_chunks - length ?next)"
    using Suc.hyps(2) by simp
  ultimately show ?case using cs by (simp add: replicate_app_Cons_same)
qed

lemma torch_chunk_result:
  assumes cont: "well_formed t"
    and dim: "- int (length (shape t)) \<le> dim" "dim < int (length (shape t))"
    and n: "1 \<le> num_chunks"
  defines "d \<equiv> nat (if dim < 0 then dim + int (length (shape t)) else dim)"
  shows "\<exists>real. (torch_chunk t num_chunks dim :: 'e error + 'a Tensor list) = Inr real
           \<and> real \<noteq> [] \<and> int (length real) \<le> num_chunks
           \<and> cat_dim d real = Some t
           \<and> (\<forall>c \<in> set real. dtype c = dtype t \<and> device c = device t)"
proof -
  have ndim: "int (length (shape t)) \<noteq> 0" using dim by linarith
  have d: "d < length (shape t)" using dim by (auto simp: d_def)
  define k where "k = nat num_chunks"
  have k: "0 < k" "int k = num_chunks" using n by (simp_all add: k_def)
  define L where "L = shape t ! d"
  define s where "s = (L + k - 1) div k"
  have unfold: "(torch_chunk t num_chunks dim :: 'e error + 'a Tensor list)
        = (if s = 0 \<and> L = 0 then Inr (replicate k (narrow t d 0 0)) else Inr (split t s d))"
  proof -
    have c1: "(int (length (shape t)) = 0) = False" using ndim by simp
    have c2: "(num_chunks \<le> 0) = False" using n by simp
    have c3: "(dim < - int (length (shape t)) \<or> int (length (shape t)) \<le> dim) = False"
      using dim by simp
    show ?thesis
      unfolding s_def L_def k_def d_def
      by (simp only: torch_chunk_def Let_def c1 c2 c3 if_False)
  qed
  show ?thesis
  proof (cases "L = 0")
    case True
    then have "s = 0" using k(1) by (simp add: s_def)
    then show ?thesis
      using unfold True k empty_dim_partitions [OF cont d k(1)] by (auto simp: L_def)
  next
    case False
    then have Lpos: "0 < shape t ! d" by (simp add: L_def)
    have s: "0 < s" and cnt: "(L + s - 1) div s \<le> k"
      using chunk_count_le [OF k(1), of L] False by (simp_all add: s_def)
    have pos: "0 < (L + s - 1) div s"
      using ceil_div_bounds(1) [OF s, of L] False by simp
    have len: "length (split t s d) = (L + s - 1) div s"
      using split_partitions(2) [OF cont d s Lpos] by (simp add: L_def)
    have fields: "\<forall>c \<in> set (split t s d). dtype c = dtype t \<and> device c = device t"
      by (auto simp: split_def Let_def)
    have "split t s d \<noteq> []" using len pos by auto
    moreover have "int (length (split t s d)) \<le> num_chunks" using len cnt k(2) by linarith
    ultimately show ?thesis
      using unfold False split_partitions(1) [OF cont d s Lpos] fields by auto
  qed
qed

lemma new_empty_0_fields [simp]:
  "numel (new_empty_0 c) = 0" "data (new_empty_0 c) = []" "shape (new_empty_0 c) = [0]"
  "dtype (new_empty_0 c) = dtype c" "device (new_empty_0 c) = device c"
  by (simp_all add: new_empty_0_def numel_def)

lemma narrow_empty_data: "data (narrow t d start 0) = []"
  by (simp add: narrow_def Let_def)


text \<open>
  Along the leading dimension, the one the sharding code splits, a slice is a run
  of consecutive elements and the concatenation is the concatenation of the
  elements.
\<close>

lemma narrow_leading:
  "data (narrow t 0 start len)
     = take (len * prod_list (tl (shape t))) (drop (start * prod_list (tl (shape t))) (data t))"
  by (simp add: narrow_def Let_def drop_Suc)

lemma cat_dim_leading:
  assumes "cat_dim 0 ts = Some r" and "\<forall>t \<in> set ts. well_formed t"
  shows "data r = concat (map data ts)"
    and "shape r = sum_list (map (\<lambda>t. hd (shape t)) ts) # tl (shape (hd ts))"
proof -
  obtain t0 rest where ts: "ts = t0 # rest" using assms(1) by (cases ts) (auto simp: cat_dim_def)
  have ok: "list_all (\<lambda>t. 0 < length (shape t) \<and> (shape t)[0 := 0] = (shape t0)[0 := 0]
                            \<and> dtype t = dtype t0 \<and> device t = device t0) ts"
    using assms(1) unfolding cat_dim_def ts by (simp split: if_splits)
  have piece: "take (shape t ! 0 * prod_list (drop (Suc 0) (shape t0))) (data t) = data t"
    if "t \<in> set ts" for t
  proof -
    from ok that have ne: "shape t \<noteq> []" and eq: "(shape t)[0 := 0] = (shape t0)[0 := 0]"
      by (auto simp: list_all_iff)
    from ok have ne0: "shape t0 \<noteq> []" by (auto simp: list_all_iff ts)
    from eq ne ne0 have "tl (shape t) = tl (shape t0)"
      by (cases "shape t"; cases "shape t0") auto
    moreover have "length (data t) = prod_list (shape t)"
      using assms(2) that by (simp add: well_formed_def numel_def)
    ultimately show ?thesis using ne by (cases "shape t") (auto simp: drop_Suc)
  qed
  have r: "r = t0\<lparr>shape := (shape t0)[0 := sum_list (map (\<lambda>t. shape t ! 0) ts)],
                  data := concat (map (\<lambda>t. take (shape t ! 0 * prod_list (drop (Suc 0) (shape t0)))
                                    (data t)) ts)\<rparr>"
    using assms(1) ok unfolding cat_dim_def ts by (simp add: Let_def split: if_splits)
  have "map (\<lambda>t. take (shape t ! 0 * prod_list (drop (Suc 0) (shape t0))) (data t)) ts = map data ts"
    by (rule map_cong [OF refl]) (rule piece)
  then have "concat (map (\<lambda>t. take (shape t ! 0 * prod_list (drop (Suc 0) (shape t0))) (data t)) ts)
             = concat (map data ts)"
    by (rule arg_cong)
  then have "data r = data (t0\<lparr>shape := (shape t0)[0 := sum_list (map (\<lambda>t. shape t ! 0) ts)],
                  data := concat (map data ts)\<rparr>)"
    by (simp only: r)
  then show "data r = concat (map data ts)" by simp
  have hd0: "shape t ! 0 = hd (shape t)" if "t \<in> set ts" for t
    using ok that by (cases "shape t") (auto simp: list_all_iff)
  have "map (\<lambda>t. shape t ! 0) ts = map (\<lambda>t. hd (shape t)) ts"
    by (rule map_cong [OF refl]) (rule hd0)
  then have sums: "sum_list (map (\<lambda>t. shape t ! 0) ts) = sum_list (map (\<lambda>t. hd (shape t)) ts)"
    by (rule arg_cong)
  have "shape t0 \<noteq> []" using ok by (auto simp: ts)
  then have "(shape t0)[0 := sum_list (map (\<lambda>t. hd (shape t)) ts)]
             = sum_list (map (\<lambda>t. hd (shape t)) ts) # tl (shape t0)"
    by (cases "shape t0") simp_all
  moreover have "shape r = (shape t0)[0 := sum_list (map (\<lambda>t. shape t ! 0) ts)]"
    by (simp add: r)
  ultimately show "shape r = sum_list (map (\<lambda>t. hd (shape t)) ts) # tl (shape (hd ts))"
    using sums by (simp add: ts)
qed

text \<open>
  C3. For a tensor \<open>t\<close>, a valid dimension index and \<open>N \<ge> 1\<close>,
  \<open>_chunk_with_empty\<close> returns exactly \<open>N\<close> chunks: the chunks \<open>real\<close> that the split
  produced, followed by placeholders \<open>pad\<close>. The concatenation of the real chunks
  along the split dimension is \<open>t\<close> itself, and every placeholder has no elements
  and the dtype and device of the real chunks.
\<close>

theorem chunk_with_empty_partitions:
  assumes "well_formed t"
    and "- int (length (shape t)) \<le> dim" and "dim < int (length (shape t))"
    and "1 \<le> N"
  shows "\<exists>real pad.
           (torch_chunk t N dim :: 'e error + 'a Tensor list) = Inr real
         \<and> (chunk_with_empty t N dim :: 'e error + 'a Tensor list) = Inr (real @ pad)
         \<and> int (length (real @ pad)) = N
         \<and> cat_dim (nat (if dim < 0 then dim + int (length (shape t)) else dim)) real = Some t
         \<and> (\<forall>p \<in> set pad. numel p = 0 \<and> data p = []
                \<and> (\<forall>c \<in> set real. dtype p = dtype c \<and> device p = device c))"
proof -
  from torch_chunk_result [OF assms, where 'e = 'e]
  obtain real where r:
    "(torch_chunk t N dim :: 'e error + 'a Tensor list) = Inr real"
    "real \<noteq> []" "int (length real) \<le> N"
    "cat_dim (nat (if dim < 0 then dim + int (length (shape t)) else dim)) real = Some t"
    "\<forall>c \<in> set real. dtype c = dtype t \<and> device c = device t"
    by blast
  define pad where "pad = replicate (nat N - length real) (new_empty_0 (hd real))"
  have loop: "(chunk_loop real N :: 'e error + 'a Tensor list) = Inr (real @ pad)"
    unfolding pad_def using r(2,3) by (rule chunk_loop_pads)
  have hd: "dtype (hd real) = dtype t \<and> device (hd real) = device t"
    using r(2,5) by (cases real) auto
  have "(chunk_with_empty t N dim :: 'e error + 'a Tensor list) = Inr (real @ pad)"
    using r(1) loop by (simp add: chunk_with_empty_def)
  moreover have "int (length (real @ pad)) = N"
    using r(3) by (simp add: pad_def)
  moreover have "\<forall>p \<in> set pad. numel p = 0 \<and> data p = []
                \<and> (\<forall>c \<in> set real. dtype p = dtype c \<and> device p = device c)"
    using hd r(5) by (auto simp: pad_def)
  ultimately show ?thesis using r(1,4) by blast
qed

theorem chunk_with_empty_partitions_witness:
  "well_formed vec2 \<and> - int (length (shape vec2)) \<le> 0 \<and> 0 < int (length (shape vec2))
   \<and> (1::int) \<le> 4
   \<and> (\<exists>real pad.
         (torch_chunk vec2 4 0 :: unit error + nat Tensor list) = Inr real
       \<and> (chunk_with_empty vec2 4 0 :: unit error + nat Tensor list) = Inr (real @ pad)
       \<and> int (length (real @ pad)) = 4
       \<and> cat_dim 0 real = Some vec2
       \<and> real = [vec2\<lparr>shape := [1], data := [7]\<rparr>, vec2\<lparr>shape := [1], data := [8]\<rparr>]
       \<and> pad = [vec2\<lparr>shape := [0], data := []\<rparr>, vec2\<lparr>shape := [0], data := []\<rparr>])"
proof -
  have h1: "well_formed vec2" by (simp add: well_formed_def numel_def vec2_def)
  have h2: "- int (length (shape vec2)) \<le> 0" by simp
  have h3: "0 < int (length (shape vec2))" by (simp add: vec2_def)
  have h4: "(1::int) \<le> 4" by simp
  from chunk_with_empty_partitions [OF h1 h2 h3 h4, where 'e = unit]
  obtain real pad where r:
    "(torch_chunk vec2 4 0 :: unit error + nat Tensor list) = Inr real"
    "(chunk_with_empty vec2 4 0 :: unit error + nat Tensor list) = Inr (real @ pad)"
    "int (length (real @ pad)) = 4"
    "cat_dim 0 real = Some vec2"
    by auto
  have e1: "(torch_chunk vec2 4 0 :: unit error + nat Tensor list)
            = Inr [vec2\<lparr>shape := [1], data := [7]\<rparr>, vec2\<lparr>shape := [1], data := [8]\<rparr>]"
    by (simp add: torch_chunk_def split_def narrow_def vec2_def Let_def upt_conv_Cons)
  have e2: "(chunk_with_empty vec2 4 0 :: unit error + nat Tensor list)
            = Inr [vec2\<lparr>shape := [1], data := [7]\<rparr>, vec2\<lparr>shape := [1], data := [8]\<rparr>,
                   vec2\<lparr>shape := [0], data := []\<rparr>, vec2\<lparr>shape := [0], data := []\<rparr>]"
    by (simp add: chunk_with_empty_def torch_chunk_def split_def narrow_def new_empty_0_def
          vec2_def Let_def upt_conv_Cons)
  have real: "real = [vec2\<lparr>shape := [1], data := [7]\<rparr>, vec2\<lparr>shape := [1], data := [8]\<rparr>]"
    using r(1) e1 by simp
  have pad: "pad = [vec2\<lparr>shape := [0], data := []\<rparr>, vec2\<lparr>shape := [0], data := []\<rparr>]"
    using r(2) e2 real by simp
  have "\<exists>real pad.
         (torch_chunk vec2 4 0 :: unit error + nat Tensor list) = Inr real
       \<and> (chunk_with_empty vec2 4 0 :: unit error + nat Tensor list) = Inr (real @ pad)
       \<and> int (length (real @ pad)) = 4
       \<and> cat_dim 0 real = Some vec2
       \<and> real = [vec2\<lparr>shape := [1], data := [7]\<rparr>, vec2\<lparr>shape := [1], data := [8]\<rparr>]
       \<and> pad = [vec2\<lparr>shape := [0], data := []\<rparr>, vec2\<lparr>shape := [0], data := []\<rparr>]"
    using r real pad by blast
  then show ?thesis using h1 h2 h3 by simp
qed

text \<open>
  The split along the last dimension of a matrix, addressed from the front and
  from the end, with the pieces' elements taken row by row.
\<close>

lemma chunk_with_empty_columns_example:
  "(chunk_with_empty mat2x3 2 1 :: unit error + nat Tensor list)
     = Inr [mat2x3\<lparr>shape := [2, 2], data := [1, 2, 4, 5]\<rparr>,
            mat2x3\<lparr>shape := [2, 1], data := [3, 6]\<rparr>]"
  "(chunk_with_empty mat2x3 2 (- 1) :: unit error + nat Tensor list)
     = chunk_with_empty mat2x3 2 1"
  "(chunk_with_empty mat2x3 4 0 :: unit error + nat Tensor list)
     = Inr [mat2x3\<lparr>shape := [1, 3], data := [1, 2, 3]\<rparr>,
            mat2x3\<lparr>shape := [1, 3], data := [4, 5, 6]\<rparr>,
            new_empty_0 mat2x3, new_empty_0 mat2x3]"
  by code_simp+

text \<open>
  C10. When the tensor has size \<open>0\<close> along the split dimension and \<open>N \<ge> 1\<close>, the
  split still returns at least one chunk, each of them empty, so the loop never
  reads \<open>chunks[0]\<close> of an empty list: \<open>_chunk_with_empty\<close> returns, and what it
  returns has exactly \<open>N\<close> chunks.
\<close>

theorem chunk_with_empty_total_on_empty_dim:
  assumes "- int (length (shape t)) \<le> dim" and "dim < int (length (shape t))"
    and "shape t ! nat (if dim < 0 then dim + int (length (shape t)) else dim) = 0"
    and "1 \<le> N"
  shows "\<exists>real.
           (torch_chunk t N dim :: 'e error + 'a Tensor list) = Inr real
         \<and> real \<noteq> []
         \<and> (\<forall>c \<in> set real. data c = []
               \<and> shape c ! nat (if dim < 0 then dim + int (length (shape t)) else dim) = 0)
         \<and> (\<exists>chunks. (chunk_with_empty t N dim :: 'e error + 'a Tensor list) = Inr chunks
               \<and> int (length chunks) = N)"
proof -
  define d where "d = nat (if dim < 0 then dim + int (length (shape t)) else dim)"
  define real where "real = replicate (nat N) (narrow t d 0 0)"
  have d: "d < length (shape t)" using assms(1,2) by (auto simp: d_def)
  have c1: "(int (length (shape t)) = 0) = False" using assms(1,2) by auto
  have c2: "(N \<le> 0) = False" using assms(4) by simp
  have c3: "(dim < - int (length (shape t)) \<or> int (length (shape t)) \<le> dim) = False"
    using assms(1,2) by simp
  have zero: "(0 + nat N - 1) div nat N = 0" using assms(4) by simp
  have chunk: "(torch_chunk t N dim :: 'e error + 'a Tensor list) = Inr real"
    unfolding real_def d_def
    by (simp only: torch_chunk_def Let_def c1 c2 c3 if_False assms(3) zero simp_thms if_True)
  have ne: "real \<noteq> []" using assms(4) by (simp add: real_def)
  have len: "int (length real) = N" using assms(4) by (simp add: real_def)
  have "(chunk_loop real N :: 'e error + 'a Tensor list)
        = Inr (real @ replicate (nat N - length real) (new_empty_0 (hd real)))"
    using ne len by (intro chunk_loop_pads) simp_all
  then have "(chunk_with_empty t N dim :: 'e error + 'a Tensor list) = Inr real"
    using chunk len by (simp add: chunk_with_empty_def)
  moreover have "\<forall>c \<in> set real. data c = [] \<and> shape c ! d = 0"
    using d by (simp add: real_def narrow_empty_data)
  ultimately show ?thesis using chunk ne len unfolding d_def by blast
qed

theorem chunk_with_empty_total_on_empty_dim_witness:
  "- int (length (shape mat0x3)) \<le> 0 \<and> 0 < int (length (shape mat0x3))
   \<and> shape mat0x3 ! 0 = 0 \<and> (1::int) \<le> 3
   \<and> (torch_chunk mat0x3 3 0 :: unit error + nat Tensor list) = Inr [mat0x3, mat0x3, mat0x3]
   \<and> (\<exists>chunks. (chunk_with_empty mat0x3 3 0 :: unit error + nat Tensor list) = Inr chunks
         \<and> int (length chunks) = 3)"
proof -
  have h1: "- int (length (shape mat0x3)) \<le> 0" by simp
  have h2: "0 < int (length (shape mat0x3))" by (simp add: mat0x3_def)
  have h3: "shape mat0x3 ! nat (if (0::int) < 0 then 0 + int (length (shape mat0x3)) else 0) = 0"
    by (simp add: mat0x3_def)
  have h4: "(1::int) \<le> 3" by simp
  from chunk_with_empty_total_on_empty_dim [OF h1 h2 h3 h4, where 'e = unit]
  obtain chunks where
    "(chunk_with_empty mat0x3 3 0 :: unit error + nat Tensor list) = Inr chunks"
    "int (length chunks) = 3"
    by auto
  moreover have "(torch_chunk mat0x3 3 0 :: unit error + nat Tensor list)
                 = Inr [mat0x3, mat0x3, mat0x3]"
    by code_simp
  ultimately show ?thesis using h1 h2 h3 by auto
qed

end
